theory Spec2Isabelle
  imports Main
begin

section \<open>Notification records and the remote collection\<close>

text \<open>
  The screen \<^verbatim>\<open>UserNotificationPage\<close> (\<^verbatim>\<open>src/app/userapp/notificationpage.tsx\<close>) shows
  the unread notification documents of the signed-in user. A document carries the fields the
  screen reads or queries: the identifier \<^verbatim>\<open>$id\<close>, \<^verbatim>\<open>userEmail\<close>, \<^verbatim>\<open>description\<close>, the
  boolean \<^verbatim>\<open>isRead\<close>, and \<^verbatim>\<open>createdAt\<close>, the creation timestamp that the list query
  orders by.
\<close>

record document =
  doc_id :: string
  doc_userEmail :: string
  doc_description :: string
  doc_isRead :: bool
  doc_createdAt :: int

text \<open>
  A remote call is a promise: it resolves with a value or rejects. \<open>Rejected\<close> is a failure
  of the transport or the server, \<open>BadQuery\<close> and \<open>NotFound\<close> are the store's own refusals.
\<close>

datatype error = Rejected | BadQuery | NotFound

text \<open>
  The queries the screen builds (\<^verbatim>\<open>Query.equal\<close>, \<^verbatim>\<open>Query.orderDesc\<close>, lines 85-86) and the
  data it sends with an update (\<^verbatim>\<open>{ isRead: true }\<close>, line 118).
\<close>

datatype query = Equal string string | OrderDesc string

datatype data = IsRead bool

text \<open>
  Modelled from the spec: the remote document store is a hosted service and not code of this
  repository; the spec gives its interface as "list (with equality + descending order
  filters), update (set one field), delete". The collection has the string attributes
  \<^verbatim>\<open>userEmail\<close> and \<^verbatim>\<open>description\<close> to compare with.
\<close>

definition string_attribute :: "string \<Rightarrow> (document \<Rightarrow> string) option" where
  "string_attribute a =
     (if a = ''userEmail'' then Some doc_userEmail
      else if a = ''description'' then Some doc_description
      else None)"

text \<open>
  Modelled from the spec: the collection of the remote store has the timestamp attribute
  \<^verbatim>\<open>createdAt\<close> to order by.
\<close>

definition time_attribute :: "string \<Rightarrow> (document \<Rightarrow> int) option" where
  "time_attribute a = (if a = ''createdAt'' then Some doc_createdAt else None)"

text \<open>
  Modelled from the spec: how the remote store applies one query of a list request.
  \<open>Equal a v\<close> keeps the documents whose attribute \<open>a\<close> is \<open>v\<close>, \<open>OrderDesc a\<close> sorts by
  attribute \<open>a\<close>, greatest first; a query on an attribute the collection does not have is
  refused.
\<close>

fun apply_query :: "query \<Rightarrow> document list \<Rightarrow> error + document list" where
  "apply_query (Equal a v) ds =
     (case string_attribute a of
        None \<Rightarrow> Inl BadQuery
      | Some f \<Rightarrow> Inr (filter (\<lambda>d. f d = v) ds))"
| "apply_query (OrderDesc a) ds =
     (case time_attribute a of
        None \<Rightarrow> Inl BadQuery
      | Some f \<Rightarrow> Inr (sort_key (\<lambda>d. - f d) ds))"

text \<open>
  Modelled from the spec: the list operation of the remote store, "list (with equality +
  descending order filters)": the documents of the collection that pass every query, in the
  order the queries ask for.
\<close>

fun listDocuments :: "document list \<Rightarrow> query list \<Rightarrow> error + document list" where
  "listDocuments ds [] = Inr ds"
| "listDocuments ds (q # qs) =
     (case listDocuments ds qs of
        Inl e \<Rightarrow> Inl e
      | Inr ds' \<Rightarrow> apply_query q ds')"

text \<open>
  Modelled from the spec: the update operation of the remote store, "update (set one
  field)": the fields named in the data are set on the document with the given identifier,
  every other field and document is left as it is; an identifier the collection does not
  hold is refused.
\<close>

fun set_fields :: "data \<Rightarrow> document \<Rightarrow> document" where
  "set_fields (IsRead b) d = d\<lparr>doc_isRead := b\<rparr>"

definition updateDocument :: "document list \<Rightarrow> string \<Rightarrow> data \<Rightarrow> error + document list" where
  "updateDocument ds i dat =
     (if i \<in> doc_id ` set ds
      then Inr (map (\<lambda>d. if doc_id d = i then set_fields dat d else d) ds)
      else Inl NotFound)"

text \<open>
  Modelled from the spec: the delete operation of the remote store: the document with the
  given identifier is removed; an identifier the collection does not hold is refused.
\<close>

definition deleteDocument :: "document list \<Rightarrow> string \<Rightarrow> error + document list" where
  "deleteDocument ds i =
     (if i \<in> doc_id ` set ds
      then Inr (filter (\<lambda>d. doc_id d \<noteq> i) ds)
      else Inl NotFound)"

text \<open>A call whose transport fails rejects without reaching the store.\<close>

definition remote :: "bool \<Rightarrow> error + 'a \<Rightarrow> error + 'a" where
  "remote ok r = (if ok then r else Inl Rejected)"

section \<open>Effects, component state and pending continuations\<close>

datatype feedback = Success | Warning

text \<open>
  What the screen does to the outside, in the order it does it: modal alerts, the delete
  confirmation dialog, haptics, the replay of the loaded sound, console output, the requests
  sent to the store, and the acquisition and release of the sound and of the push listener.
\<close>

datatype effect =
    Alert string string
  | Confirm string string
  | Haptic feedback
  | ReplaySound
  | ConsoleLog string
  | ListCall "query list"
  | UpdateCall string data
  | DeleteCall string
  | CreateSound
  | UnloadSound
  | AddListener
  | RemoveListener

text \<open>
  The \<^verbatim>\<open>useState\<close> cells of the component (lines 38-43). Once the component is
  unmounted nothing is rendered any more; the cells then only record what the setters were
  last given.
\<close>

record screen =
  notifications :: "document list"
  refreshing :: bool
  previousCount :: nat
  userEmail :: string
  expoPushToken :: "string option"

text \<open>
  Every handler is a closure of the render that created it: it reads the state cells as
  that render saw them and writes through the setters. A continuation suspended at an
  \<^verbatim>\<open>await\<close> is therefore recorded with the render \<open>c\<close> whose handler waits there, and, for
  a call to the store, with the request that is in flight.
\<close>

datatype pending =
    AwaitSound
  | AwaitRegister
  | AwaitUser screen
  | AwaitList screen "query list"
  | AwaitUpdate screen string data
  | DialogOpen screen
  | AwaitDeletes screen "string list"

datatype phase = Fresh | Mounted | Unmounted

text \<open>
  The screen in its surroundings: the state cells, whether \<^verbatim>\<open>soundRef.current\<close> holds a
  sound, the remote collection, the suspended continuations and the effects so far.
\<close>

record sys =
  ui :: screen
  soundRef :: bool
  coll :: "document list"
  pending :: "pending list"
  trace :: "effect list"
  phase :: phase

definition emit :: "effect list \<Rightarrow> sys \<Rightarrow> sys" where
  "emit fx s = s\<lparr>trace := trace s @ fx\<rparr>"

definition await :: "pending \<Rightarrow> sys \<Rightarrow> sys" where
  "await p s = s\<lparr>pending := pending s @ [p]\<rparr>"

definition setState :: "(screen \<Rightarrow> screen) \<Rightarrow> sys \<Rightarrow> sys" where
  "setState f s = s\<lparr>ui := f (ui s)\<rparr>"

section \<open>The handlers\<close>

text \<open>
  \<^verbatim>\<open>playNotificationSound\<close> (lines 102-111): replay the sound when one is loaded, then the
  success haptic; a replay that throws is logged and skips the haptic.
\<close>

definition playNotificationSound :: "bool \<Rightarrow> sys \<Rightarrow> sys" where
  "playNotificationSound replay_ok s =
     (if soundRef s
      then (if replay_ok then emit [ReplaySound, Haptic Success] s
            else emit [ConsoleLog ''Error playing sound''] s)
      else emit [Haptic Success] s)"

text \<open>The queries of the list request (lines 84-87).\<close>

definition fetch_queries :: "string \<Rightarrow> query list" where
  "fetch_queries email = [Equal ''userEmail'' email, OrderDesc ''createdAt'']"

text \<open>
  \<^verbatim>\<open>fetchNotifications\<close> (lines 82-99) up to its \<^verbatim>\<open>await\<close>: the list request goes out.
\<close>

definition fetchNotifications :: "screen \<Rightarrow> string \<Rightarrow> sys \<Rightarrow> sys" where
  "fetchNotifications c email s =
     await (AwaitList c (fetch_queries email)) (emit [ListCall (fetch_queries email)] s)"

text \<open>
  \<^verbatim>\<open>fetchNotifications\<close> from the \<^verbatim>\<open>await\<close> on: \<open>res\<close> is what the list request settled
  with, \<open>replay_ok\<close> says whether a replay of the sound succeeds. \<open>previousCount c\<close> is the
  count as the handler's render saw it.
\<close>

definition fetchNotifications_settled ::
    "screen \<Rightarrow> error + document list \<Rightarrow> bool \<Rightarrow> sys \<Rightarrow> sys" where
  "fetchNotifications_settled c res replay_ok s =
     setState (\<lambda>u. u\<lparr>refreshing := False\<rparr>)
       (case res of
          Inr documents \<Rightarrow>
            (let newNotifications = filter (\<lambda>doc. \<not> doc_isRead doc) documents
             in setState (\<lambda>u. u\<lparr>notifications := newNotifications,
                                previousCount := length newNotifications\<rparr>)
                  (if length newNotifications > previousCount c
                   then playNotificationSound replay_ok s
                   else s))
        | Inl e \<Rightarrow> emit [Alert ''Error'' ''Failed to fetch notifications''] s)"

text \<open>\<^verbatim>\<open>markAsRead\<close> (lines 114-124), up to and from its \<^verbatim>\<open>await\<close>.\<close>

definition markAsRead :: "screen \<Rightarrow> string \<Rightarrow> sys \<Rightarrow> sys" where
  "markAsRead c i s =
     await (AwaitUpdate c i (IsRead True))
       (emit [Haptic Success, UpdateCall i (IsRead True)] s)"

definition markAsRead_settled :: "screen \<Rightarrow> error + unit \<Rightarrow> sys \<Rightarrow> sys" where
  "markAsRead_settled c res s =
     (case res of
        Inr _ \<Rightarrow> fetchNotifications c (userEmail c) s
      | Inl e \<Rightarrow> emit [Alert ''Error'' ''Failed to mark as read''] s)"

text \<open>\<^verbatim>\<open>onRefresh\<close> (lines 126-131); a string is truthy when it is not empty.\<close>

definition onRefresh :: "screen \<Rightarrow> sys \<Rightarrow> sys" where
  "onRefresh c s =
     (let s1 = setState (\<lambda>u. u\<lparr>refreshing := True\<rparr>) s
      in if userEmail c \<noteq> [] then fetchNotifications c (userEmail c) s1 else s1)"

text \<open>\<^verbatim>\<open>getUserAndFetch\<close> (lines 134-142) from the \<^verbatim>\<open>await\<close> of \<^verbatim>\<open>account.get()\<close> on.\<close>

definition getUserAndFetch_settled :: "screen \<Rightarrow> error + string \<Rightarrow> sys \<Rightarrow> sys" where
  "getUserAndFetch_settled c user s =
     (case user of
        Inr email \<Rightarrow> fetchNotifications c email (setState (\<lambda>u. u\<lparr>userEmail := email\<rparr>) s)
      | Inl e \<Rightarrow> emit [Alert ''Error'' ''Failed to get user data''] s)"

text \<open>
  \<^verbatim>\<open>deleteAllNotifications\<close> (lines 146-166): the confirmation dialog; its Delete button
  sends one delete request per notification of the render that opened the dialog and waits
  for \<^verbatim>\<open>Promise.all\<close> of them; then the warning haptic and a re-fetch, or the alert.
\<close>

definition deleteAllNotifications :: "screen \<Rightarrow> sys \<Rightarrow> sys" where
  "deleteAllNotifications c s =
     await (DialogOpen c)
       (emit [Confirm ''Delete All Notifications''
                ''Are you sure you want to delete all unread notifications?''] s)"

definition deleteAll_onPress :: "screen \<Rightarrow> sys \<Rightarrow> sys" where
  "deleteAll_onPress c s =
     await (AwaitDeletes c (map doc_id (notifications c)))
       (emit (map (\<lambda>notification. DeleteCall (doc_id notification)) (notifications c)) s)"

definition deleteAll_settled :: "screen \<Rightarrow> error + unit \<Rightarrow> sys \<Rightarrow> sys" where
  "deleteAll_settled c res s =
     (case res of
        Inr _ \<Rightarrow> fetchNotifications c (userEmail c) (emit [Haptic Warning] s)
      | Inl e \<Rightarrow> emit [Alert ''Error'' ''Failed to delete notifications''] s)"

section \<open>Push registration\<close>

datatype permission = Granted | Denied | Undetermined

text \<open>
  What \<^verbatim>\<open>registerForPushNotificationsAsync\<close> (lines 226-244) asks of the device: whether
  it is a physical device, and the outcomes of \<^verbatim>\<open>getPermissionsAsync\<close>,
  \<^verbatim>\<open>requestPermissionsAsync\<close> and \<^verbatim>\<open>getExpoPushTokenAsync\<close>.
\<close>

record device =
  isDevice :: bool
  getPermissions :: "error + permission"
  requestPermissions :: "error + permission"
  getExpoPushToken :: "error + string"

text \<open>Lines 228-233: the existing status, or the requested one when that is not granted.\<close>

definition finalStatus :: "device \<Rightarrow> error + permission" where
  "finalStatus d =
     (case getPermissions d of
        Inl e \<Rightarrow> Inl e
      | Inr existingStatus \<Rightarrow>
          if existingStatus \<noteq> Granted then requestPermissions d else Inr existingStatus)"

definition registerForPushNotificationsAsync ::
    "device \<Rightarrow> (error + string option) \<times> effect list" where
  "registerForPushNotificationsAsync d =
     (if isDevice d then
        (case finalStatus d of
           Inl e \<Rightarrow> (Inl e, [])
         | Inr status \<Rightarrow>
             if status \<noteq> Granted
             then (Inr None, [Alert ''Permission required'' ''Enable notifications in settings.''])
             else (case getExpoPushToken d of
                     Inl e \<Rightarrow> (Inl e, [])
                   | Inr token \<Rightarrow> (Inr (Some token), [])))
      else (Inr None,
            [Alert ''Device error'' ''Must use physical device for push notifications.'']))"

text \<open>
  The \<^verbatim>\<open>.then\<close> of lines 63-69: a truthy token is stored and logged. The alerts of the
  helper are recorded here, when its promise settles. On a device that is not physical the
  helper raises its alert without suspending, while the mount effect runs and before the
  listener is added; where this alert stands among the effects of mounting is not modelled.
\<close>

definition register_settled :: "device \<Rightarrow> sys \<Rightarrow> sys" where
  "register_settled d s =
     (case registerForPushNotificationsAsync d of
        (r, fx) \<Rightarrow>
          (case r of
             Inr (Some token) \<Rightarrow>
               if token \<noteq> []
               then emit [ConsoleLog ''Expo Push Token:'']
                      (setState (\<lambda>u. u\<lparr>expoPushToken := Some token\<rparr>) (emit fx s))
               else emit fx s
           | _ \<Rightarrow> emit fx s))"

section \<open>Lifecycle and the event loop\<close>

text \<open>
  Mounting runs the three effects with empty dependency lists: the sound starts loading
  (lines 46-53), push registration starts and the listener is added (lines 62-74), and the
  user lookup starts (lines 133-144). Unmounting runs their cleanups (lines 54-58, 76-78).
\<close>

definition mount :: "sys \<Rightarrow> sys" where
  "mount s =
     await (AwaitUser (ui s))
       (emit [AddListener] (await AwaitRegister (await AwaitSound (s\<lparr>phase := Mounted\<rparr>))))"

definition loadSound_settled :: "bool \<Rightarrow> sys \<Rightarrow> sys" where
  "loadSound_settled ok s = (if ok then emit [CreateSound] (s\<lparr>soundRef := True\<rparr>) else s)"

definition unmount :: "sys \<Rightarrow> sys" where
  "unmount s =
     emit [RemoveListener]
       ((if soundRef s then emit [UnloadSound] s else s)\<lparr>phase := Unmounted\<rparr>)"

definition notification_received :: "bool \<Rightarrow> sys \<Rightarrow> sys" where
  "notification_received replay_ok s =
     playNotificationSound replay_ok (emit [ConsoleLog ''Notification received:''] s)"

text \<open>
  The store serves a request at the moment its promise settles. A list request does not
  change the collection; an update or a delete that gets through does. The store serves
  every delete request of a batch on its own; \<open>failing\<close> holds the identifiers whose request
  does not get through. \<^verbatim>\<open>Promise.all\<close> of the batch resolves if every request resolved and
  rejects otherwise.
\<close>

definition serve_list :: "query list \<Rightarrow> bool \<Rightarrow> sys \<Rightarrow> error + document list" where
  "serve_list queries ok s = remote ok (listDocuments (coll s) queries)"

definition serve_update :: "string \<Rightarrow> data \<Rightarrow> bool \<Rightarrow> sys \<Rightarrow> (error + unit) \<times> sys" where
  "serve_update i dat ok s =
     (case remote ok (updateDocument (coll s) i dat) of
        Inr ds \<Rightarrow> (Inr (), s\<lparr>coll := ds\<rparr>)
      | Inl e \<Rightarrow> (Inl e, s))"

fun promise_all_deletes ::
    "string set \<Rightarrow> string list \<Rightarrow> document list \<Rightarrow> document list \<times> bool" where
  "promise_all_deletes failing [] ds = (ds, True)"
| "promise_all_deletes failing (i # is) ds =
     (case remote (i \<notin> failing) (deleteDocument ds i) of
        Inl e \<Rightarrow> (fst (promise_all_deletes failing is ds), False)
      | Inr ds' \<Rightarrow> promise_all_deletes failing is ds')"

definition serve_deletes :: "string list \<Rightarrow> string set \<Rightarrow> sys \<Rightarrow> (error + unit) \<times> sys" where
  "serve_deletes ids failing s =
     (case promise_all_deletes failing ids (coll s) of
        (ds, all_resolved) \<Rightarrow>
          (if all_resolved then Inr () else Inl Rejected, s\<lparr>coll := ds\<rparr>))"

text \<open>
  One turn of the event loop. A gesture runs the handler of the current render; a settled
  promise resumes the continuation that waits for it.
\<close>

datatype event =
    Mount
  | Unmount
  | SoundSettled bool
  | RegisterSettled device
  | UserSettled screen "error + string"
  | PushReceived bool
  | Refresh
  | Dismiss string
  | PressDeleteAll
  | DialogChoice screen bool
  | ListSettled screen "query list" bool bool
  | UpdateSettled screen string data bool
  | DeletesSettled screen "string list" "string set"

definition resume :: "pending \<Rightarrow> (sys \<Rightarrow> sys) \<Rightarrow> sys \<Rightarrow> sys" where
  "resume p k s =
     (if p \<in> set (pending s) then k (s\<lparr>pending := remove1 p (pending s)\<rparr>) else s)"

fun step :: "event \<Rightarrow> sys \<Rightarrow> sys" where
  "step Mount s = (if phase s = Fresh then mount s else s)"
| "step Unmount s = (if phase s = Mounted then unmount s else s)"
| "step (SoundSettled ok) s = resume AwaitSound (loadSound_settled ok) s"
| "step (RegisterSettled d) s = resume AwaitRegister (register_settled d) s"
| "step (UserSettled c user) s = resume (AwaitUser c) (getUserAndFetch_settled c user) s"
| "step (PushReceived replay_ok) s =
     (if phase s = Mounted then notification_received replay_ok s else s)"
| "step Refresh s = (if phase s = Mounted then onRefresh (ui s) s else s)"
| "step (Dismiss i) s =
     (if phase s = Mounted \<and> i \<in> doc_id ` set (notifications (ui s))
      then markAsRead (ui s) i s else s)"
| "step PressDeleteAll s =
     (if phase s = Mounted \<and> notifications (ui s) \<noteq> []
      then deleteAllNotifications (ui s) s else s)"
| "step (DialogChoice c delete) s =
     resume (DialogOpen c) (if delete then deleteAll_onPress c else (\<lambda>s. s)) s"
| "step (ListSettled c queries ok replay_ok) s =
     resume (AwaitList c queries)
       (\<lambda>s. fetchNotifications_settled c (serve_list queries ok s) replay_ok s) s"
| "step (UpdateSettled c i dat ok) s =
     resume (AwaitUpdate c i dat)
       (\<lambda>s. case serve_update i dat ok s of (res, s') \<Rightarrow> markAsRead_settled c res s') s"
| "step (DeletesSettled c ids failing) s =
     resume (AwaitDeletes c ids)
       (\<lambda>s. case serve_deletes ids failing s of (res, s') \<Rightarrow> deleteAll_settled c res s') s"

definition run :: "event list \<Rightarrow> sys \<Rightarrow> sys" where
  "run es s = fold step es s"

text \<open>The first render (lines 38-43) over a given remote collection.\<close>

definition first_render :: screen where
  "first_render =
     \<lparr>notifications = [], refreshing = False, previousCount = 0, userEmail = [],
      expoPushToken = None\<rparr>"

definition init :: "document list \<Rightarrow> sys" where
  "init ds =
     \<lparr>ui = first_render, soundRef = False, coll = ds, pending = [], trace = [],
      phase = Fresh\<rparr>"

text \<open>An event that lets a suspended \<^verbatim>\<open>fetchNotifications\<close> run to its end.\<close>

fun completes_fetch :: "event \<Rightarrow> bool" where
  "completes_fetch (ListSettled c queries ok replay_ok) = True"
| "completes_fetch _ = False"

section \<open>Example values\<close>

text \<open>
  A user, three of her notifications (the third one already read), two devices, and the
  states the screen is in along small runs. They instantiate the theorems below.
\<close>

definition alice :: string where
  "alice = ''a@x''"

definition note_a :: document where
  "note_a = \<lparr>doc_id = ''a'', doc_userEmail = alice, doc_description = ''first'',
             doc_isRead = False, doc_createdAt = 1\<rparr>"

definition note_b :: document where
  "note_b = \<lparr>doc_id = ''b'', doc_userEmail = alice, doc_description = ''second'',
             doc_isRead = False, doc_createdAt = 2\<rparr>"

definition note_c :: document where
  "note_c = \<lparr>doc_id = ''c'', doc_userEmail = alice, doc_description = ''third'',
             doc_isRead = True, doc_createdAt = 3\<rparr>"

definition known_render :: screen where
  "known_render = first_render\<lparr>userEmail := alice\<rparr>"

definition listed_render :: screen where
  "listed_render = known_render\<lparr>notifications := [note_b, note_a], previousCount := 2\<rparr>"

definition just_mounted :: sys where
  "just_mounted = run [Mount] (init [note_a])"

definition listed :: sys where
  "listed = run [Mount, UserSettled first_render (Inr alice),
                 ListSettled first_render (fetch_queries alice) True True]
              (init [note_a, note_b])"

definition deletes_in_flight :: sys where
  "deletes_in_flight = run [PressDeleteAll, DialogChoice listed_render True] listed"

definition update_in_flight :: sys where
  "update_in_flight = step (Dismiss ''a'') listed"

definition two_fetches_in_flight :: sys where
  "two_fetches_in_flight =
     run [Mount, UserSettled first_render (Inr alice), Refresh] (init [note_a])"

definition first_fetch_done :: sys where
  "first_fetch_done =
     step (ListSettled first_render (fetch_queries alice) True True) two_fetches_in_flight"

definition first_fetch_done_with_sound :: sys where
  "first_fetch_done_with_sound =
     run [Mount, SoundSettled True, UserSettled first_render (Inr alice), Refresh,
          ListSettled first_render (fetch_queries alice) True True] (init [note_a])"

definition emulator :: device where
  "emulator = \<lparr>isDevice = False, getPermissions = Inr Granted,
                requestPermissions = Inr Granted, getExpoPushToken = Inr ''token''\<rparr>"

definition refusing_phone :: device where
  "refusing_phone = \<lparr>isDevice = True, getPermissions = Inr Undetermined,
                      requestPermissions = Inr Denied, getExpoPushToken = Inr ''token''\<rparr>"

section \<open>Basic facts about the model\<close>

lemma emit_simps:
  "trace (emit fx s) = trace s @ fx" "ui (emit fx s) = ui s" "coll (emit fx s) = coll s"
  "pending (emit fx s) = pending s" "soundRef (emit fx s) = soundRef s"
  "phase (emit fx s) = phase s"
  by (simp_all add: emit_def)

lemma await_simps:
  "trace (await p s) = trace s" "ui (await p s) = ui s" "coll (await p s) = coll s"
  "pending (await p s) = pending s @ [p]" "soundRef (await p s) = soundRef s"
  "phase (await p s) = phase s"
  by (simp_all add: await_def)

lemma setState_simps:
  "trace (setState f s) = trace s" "ui (setState f s) = f (ui s)" "coll (setState f s) = coll s"
  "pending (setState f s) = pending s" "soundRef (setState f s) = soundRef s"
  "phase (setState f s) = phase s"
  by (simp_all add: setState_def)

lemmas proj_simps = emit_simps await_simps setState_simps

lemma playNotificationSound_frame:
  "ui (playNotificationSound r s) = ui s" "coll (playNotificationSound r s) = coll s"
  "pending (playNotificationSound r s) = pending s"
  "soundRef (playNotificationSound r s) = soundRef s"
  "phase (playNotificationSound r s) = phase s"
  by (simp_all add: playNotificationSound_def proj_simps)

lemma fetchNotifications_simps:
  "trace (fetchNotifications c email s) = trace s @ [ListCall (fetch_queries email)]"
  "pending (fetchNotifications c email s) = pending s @ [AwaitList c (fetch_queries email)]"
  "ui (fetchNotifications c email s) = ui s"
  "coll (fetchNotifications c email s) = coll s"
  by (simp_all add: fetchNotifications_def proj_simps)

lemma fetchNotifications_settled_frame:
  "coll (fetchNotifications_settled c res r s) = coll s"
  "pending (fetchNotifications_settled c res r s) = pending s"
  by (simp_all add: fetchNotifications_settled_def Let_def proj_simps playNotificationSound_frame
      split: sum.splits)

lemma resume_pending:
  "p \<in> set (pending s) \<Longrightarrow> resume p k s = k (s\<lparr>pending := remove1 p (pending s)\<rparr>)"
  by (simp add: resume_def)

text \<open>What the store answers to the two queries of \<^verbatim>\<open>fetchNotifications\<close>.\<close>

lemma listDocuments_fetch:
  "listDocuments ds (fetch_queries email) =
     Inr (filter (\<lambda>d. doc_userEmail d = email) (sort_key (\<lambda>d. - doc_createdAt d) ds))"
  by (simp add: fetch_queries_def string_attribute_def time_attribute_def)

lemma sorted_desc_sort_key:
  "sorted_wrt (\<lambda>a b. doc_createdAt b \<le> doc_createdAt a) (sort_key (\<lambda>d. - doc_createdAt d) ds)"
proof -
  have "sorted (map (\<lambda>d. - doc_createdAt d) (sort_key (\<lambda>d. - doc_createdAt d) ds))"
    by (rule sorted_sort_key)
  then show ?thesis
    by (simp add: sorted_wrt_map)
qed

lemma fetch_settled_notifications:
  "notifications (ui (fetchNotifications_settled c (Inr documents) r s)) =
     filter (\<lambda>doc. \<not> doc_isRead doc) documents"
  by (simp add: fetchNotifications_settled_def Let_def proj_simps playNotificationSound_frame)

lemma updated_is_read:
  assumes "d \<in> set (map (\<lambda>d. if doc_id d = i then d\<lparr>doc_isRead := True\<rparr> else d) ds)"
    and "doc_id d = i"
  shows "doc_isRead d"
proof -
  from assms(1) obtain d0 where
    d: "d = (if doc_id d0 = i then d0\<lparr>doc_isRead := True\<rparr> else d0)"
    by (auto simp only: set_map image_iff)
  show ?thesis
  proof (cases "doc_id d0 = i")
    case True
    with d show ?thesis by simp
  next
    case False
    with d assms(2) show ?thesis by simp
  qed
qed

text \<open>
  The collection after a batch of delete requests: exactly the documents whose request got
  through are gone. The batch resolves as a whole only if no identifier repeats, none is
  among the failing ones and the collection holds them all.
\<close>

lemma doc_ids_after_delete:
  "doc_id ` set (filter (\<lambda>d. doc_id d \<noteq> i) ds) = doc_id ` set ds - {i}"
  by auto

lemma promise_all_deletes_collection:
  "fst (promise_all_deletes failing ids ds) = filter (\<lambda>d. doc_id d \<notin> set ids - failing) ds"
proof (induction ids arbitrary: ds)
  case Nil
  then show ?case by simp
next
  case (Cons i ids)
  show ?case
  proof (cases "i \<notin> failing \<and> i \<in> doc_id ` set ds")
    case True
    then have "fst (promise_all_deletes failing (i # ids) ds) =
                 fst (promise_all_deletes failing ids (filter (\<lambda>d. doc_id d \<noteq> i) ds))"
      by (simp add: remote_def deleteDocument_def)
    also have "\<dots> = filter (\<lambda>d. doc_id d \<notin> set ids - failing)
                          (filter (\<lambda>d. doc_id d \<noteq> i) ds)"
      by (rule Cons.IH)
    also have "\<dots> = filter (\<lambda>d. doc_id d \<notin> set (i # ids) - failing) ds"
      using True by (auto intro!: filter_cong)
    finally show ?thesis .
  next
    case False
    then have "fst (promise_all_deletes failing (i # ids) ds) =
                 fst (promise_all_deletes failing ids ds)"
      by (auto simp: remote_def deleteDocument_def)
    also have "\<dots> = filter (\<lambda>d. doc_id d \<notin> set ids - failing) ds"
      by (rule Cons.IH)
    also have "\<dots> = filter (\<lambda>d. doc_id d \<notin> set (i # ids) - failing) ds"
      using False by (intro filter_cong) auto
    finally show ?thesis .
  qed
qed

lemma promise_all_deletes_resolved:
  "snd (promise_all_deletes failing ids ds) \<longleftrightarrow>
     distinct ids \<and> set ids \<inter> failing = {} \<and> set ids \<subseteq> doc_id ` set ds"
proof (induction ids arbitrary: ds)
  case Nil
  then show ?case by simp
next
  case (Cons i ids)
  show ?case
  proof (cases "i \<notin> failing \<and> i \<in> doc_id ` set ds")
    case True
    then have "snd (promise_all_deletes failing (i # ids) ds) =
                 snd (promise_all_deletes failing ids (filter (\<lambda>d. doc_id d \<noteq> i) ds))"
      by (simp add: remote_def deleteDocument_def)
    also have "\<dots> \<longleftrightarrow> distinct ids \<and> set ids \<inter> failing = {} \<and>
                 set ids \<subseteq> doc_id ` set ds - {i}"
      by (simp only: Cons.IH doc_ids_after_delete)
    finally show ?thesis using True by auto
  next
    case False
    then have "\<not> snd (promise_all_deletes failing (i # ids) ds)"
      by (auto simp: remote_def deleteDocument_def)
    with False show ?thesis by auto
  qed
qed

lemma serve_deletes_eq:
  "serve_deletes ids failing s =
     (if distinct ids \<and> set ids \<inter> failing = {} \<and> set ids \<subseteq> doc_id ` set (coll s)
      then Inr () else Inl Rejected,
      s\<lparr>coll := filter (\<lambda>d. doc_id d \<notin> set ids - failing) (coll s)\<rparr>)"
proof -
  obtain ds r where p: "promise_all_deletes failing ids (coll s) = (ds, r)"
    by (cases "promise_all_deletes failing ids (coll s)")
  have "ds = filter (\<lambda>d. doc_id d \<notin> set ids - failing) (coll s)"
    using promise_all_deletes_collection [of failing ids "coll s"] p by simp
  moreover have "r \<longleftrightarrow> distinct ids \<and> set ids \<inter> failing = {} \<and> set ids \<subseteq> doc_id ` set (coll s)"
    using promise_all_deletes_resolved [of failing ids "coll s"] p by simp
  ultimately show ?thesis
    by (simp add: serve_deletes_def p)
qed

text \<open>Only the end of a fetch ever clears the refresh flag.\<close>

lemma refreshing_kept_by_step:
  assumes "\<not> completes_fetch ev" and "refreshing (ui s)"
  shows "refreshing (ui (step ev s))"
proof (cases ev)
  case (RegisterSettled d)
  then show ?thesis using assms
    by (simp add: resume_def register_settled_def proj_simps
        split: prod.splits sum.splits option.splits)
next
  case (UserSettled c user)
  then show ?thesis using assms
    by (simp add: resume_def getUserAndFetch_settled_def fetchNotifications_simps proj_simps
        split: sum.splits)
next
  case (UpdateSettled c i dat ok)
  then show ?thesis using assms
    by (auto simp: resume_def serve_update_def markAsRead_settled_def fetchNotifications_simps
        proj_simps split: sum.splits)
next
  case (DeletesSettled c ids failing)
  then show ?thesis using assms
    by (simp add: resume_def serve_deletes_eq deleteAll_settled_def fetchNotifications_simps
        proj_simps)
qed (use assms in \<open>simp_all add: resume_def mount_def unmount_def loadSound_settled_def
      notification_received_def playNotificationSound_frame onRefresh_def Let_def
      markAsRead_def deleteAllNotifications_def deleteAll_onPress_def
      fetchNotifications_simps proj_simps\<close>)

lemma refreshing_kept_by_run:
  "list_all (\<lambda>e. \<not> completes_fetch e) es \<Longrightarrow> refreshing (ui s) \<Longrightarrow> refreshing (ui (run es s))"
  unfolding run_def
  by (induction es arbitrary: s) (simp_all add: refreshing_kept_by_step)

subsection \<open>The example runs, evaluated\<close>

lemmas handler_defs =
  run_def init_def first_render_def resume_def mount_def unmount_def loadSound_settled_def
  register_settled_def getUserAndFetch_settled_def notification_received_def
  playNotificationSound_def onRefresh_def markAsRead_def markAsRead_settled_def
  deleteAllNotifications_def deleteAll_onPress_def deleteAll_settled_def
  fetchNotifications_def fetchNotifications_settled_def fetch_queries_def
  emit_def await_def setState_def serve_list_def serve_update_def serve_deletes_def
  remote_def updateDocument_def deleteDocument_def string_attribute_def time_attribute_def
  registerForPushNotificationsAsync_def finalStatus_def Let_def

lemmas example_defs =
  alice_def note_a_def note_b_def known_render_def listed_render_def

lemma just_mounted_eval:
  "just_mounted = \<lparr>ui = first_render, soundRef = False, coll = [note_a],
       pending = [AwaitSound, AwaitRegister, AwaitUser first_render],
       trace = [AddListener], phase = Mounted\<rparr>"
  by (simp add: just_mounted_def handler_defs)

lemma listed_eval:
  "listed = \<lparr>ui = listed_render, soundRef = False, coll = [note_a, note_b],
             pending = [AwaitSound, AwaitRegister],
             trace = [AddListener, ListCall (fetch_queries alice), Haptic Success],
             phase = Mounted\<rparr>"
  by (simp add: listed_def handler_defs example_defs)

lemma deletes_in_flight_eval:
  "deletes_in_flight = \<lparr>ui = listed_render, soundRef = False, coll = [note_a, note_b],
             pending = [AwaitSound, AwaitRegister, AwaitDeletes listed_render [''b'', ''a'']],
             trace = [AddListener, ListCall (fetch_queries alice), Haptic Success,
                      Confirm ''Delete All Notifications''
                        ''Are you sure you want to delete all unread notifications?'',
                      DeleteCall ''b'', DeleteCall ''a''], phase = Mounted\<rparr>"
  unfolding deletes_in_flight_def listed_eval
  by (simp add: handler_defs example_defs)

lemma update_in_flight_eval:
  "update_in_flight = \<lparr>ui = listed_render, soundRef = False, coll = [note_a, note_b],
             pending = [AwaitSound, AwaitRegister, AwaitUpdate listed_render ''a'' (IsRead True)],
             trace = [AddListener, ListCall (fetch_queries alice), Haptic Success,
                      Haptic Success, UpdateCall ''a'' (IsRead True)], phase = Mounted\<rparr>"
  unfolding update_in_flight_def listed_eval
  by (simp add: handler_defs example_defs)

lemma first_fetch_done_eval:
  "first_fetch_done =
     \<lparr>ui = known_render\<lparr>notifications := [note_a], previousCount := 1\<rparr>,
      soundRef = False, coll = [note_a],
      pending = [AwaitSound, AwaitRegister, AwaitList known_render (fetch_queries alice)],
      trace = [AddListener, ListCall (fetch_queries alice), ListCall (fetch_queries alice),
               Haptic Success],
      phase = Mounted\<rparr>"
  by (simp add: first_fetch_done_def two_fetches_in_flight_def handler_defs example_defs)

lemma first_fetch_done_with_sound_eval:
  "first_fetch_done_with_sound =
     \<lparr>ui = known_render\<lparr>notifications := [note_a], previousCount := 1\<rparr>,
      soundRef = True, coll = [note_a],
      pending = [AwaitRegister, AwaitList known_render (fetch_queries alice)],
      trace = [AddListener, CreateSound, ListCall (fetch_queries alice),
               ListCall (fetch_queries alice), ReplaySound, Haptic Success],
      phase = Mounted\<rparr>"
  by (simp add: first_fetch_done_with_sound_def handler_defs example_defs)

section \<open>Fetching\<close>

text \<open>
  Claim C1. Whatever documents a list request returns, the list displayed after the fetch
  consists of exactly those of them whose read flag is false. For every email and every
  fetch for it, the request that succeeds returns the store's answer to the two queries of
  the handler, so each displayed record belongs to the given email and the records stand in
  descending order of their creation timestamp.
\<close>

theorem fetch_shows_unread_of_email_newest_first:
  assumes "AwaitList c (fetch_queries email) \<in> set (pending s)"
  shows "notifications (ui (fetchNotifications_settled c' (Inr returned) replay_ok' s')) =
           filter (\<lambda>doc. \<not> doc_isRead doc) returned \<and>
         (\<exists>documents.
           serve_list (fetch_queries email) True s = Inr documents \<and>
           notifications (ui (step (ListSettled c (fetch_queries email) True replay_ok) s)) =
             filter (\<lambda>doc. \<not> doc_isRead doc) documents \<and>
           (\<forall>n \<in> set (notifications
                        (ui (step (ListSettled c (fetch_queries email) True replay_ok) s))).
              doc_userEmail n = email \<and> \<not> doc_isRead n) \<and>
           sorted_wrt (\<lambda>a b. doc_createdAt b \<le> doc_createdAt a)
             (notifications (ui (step (ListSettled c (fetch_queries email) True replay_ok) s))))"
proof
  show "notifications (ui (fetchNotifications_settled c' (Inr returned) replay_ok' s')) =
          filter (\<lambda>doc. \<not> doc_isRead doc) returned"
    by (rule fetch_settled_notifications)
next
  let ?answer = "filter (\<lambda>d. doc_userEmail d = email)
                   (sort_key (\<lambda>d. - doc_createdAt d) (coll s))"
  let ?s0 = "s\<lparr>pending := remove1 (AwaitList c (fetch_queries email)) (pending s)\<rparr>"
  have answer: "serve_list (fetch_queries email) True s = Inr ?answer"
    "serve_list (fetch_queries email) True ?s0 = Inr ?answer"
    by (simp_all add: serve_list_def remote_def listDocuments_fetch)
  have shown: "notifications (ui (step (ListSettled c (fetch_queries email) True replay_ok) s)) =
                 filter (\<lambda>doc. \<not> doc_isRead doc) ?answer"
    using assms by (simp add: resume_pending answer fetch_settled_notifications)
  have "sorted_wrt (\<lambda>a b. doc_createdAt b \<le> doc_createdAt a)
          (filter (\<lambda>doc. \<not> doc_isRead doc) ?answer)"
    by (intro sorted_wrt_filter sorted_desc_sort_key)
  with answer(1) shown
  show "\<exists>documents.
           serve_list (fetch_queries email) True s = Inr documents \<and>
           notifications (ui (step (ListSettled c (fetch_queries email) True replay_ok) s)) =
             filter (\<lambda>doc. \<not> doc_isRead doc) documents \<and>
           (\<forall>n \<in> set (notifications
                        (ui (step (ListSettled c (fetch_queries email) True replay_ok) s))).
              doc_userEmail n = email \<and> \<not> doc_isRead n) \<and>
           sorted_wrt (\<lambda>a b. doc_createdAt b \<le> doc_createdAt a)
             (notifications (ui (step (ListSettled c (fetch_queries email) True replay_ok) s)))"
    by (intro exI [of _ ?answer]) simp
qed

text \<open>
  C1 at an instance: two fetches for the user are in flight over a store that holds her
  notification \<open>a\<close>; the one that settles shows it. And of three returned notifications, one
  of them read, the two unread ones are shown in the order returned.
\<close>

theorem fetch_shows_unread_of_email_newest_first_witness:
  "AwaitList first_render (fetch_queries alice) \<in> set (pending two_fetches_in_flight) \<and>
   notifications (ui (step (ListSettled first_render (fetch_queries alice) True True)
                        two_fetches_in_flight)) = [note_a] \<and>
   doc_userEmail note_a = alice \<and>
   notifications (ui (fetchNotifications_settled known_render (Inr [note_c, note_b, note_a])
                        True just_mounted)) = [note_b, note_a]"
proof -
  have waiting: "AwaitList first_render (fetch_queries alice) \<in> set (pending two_fetches_in_flight)"
    by (simp add: two_fetches_in_flight_def handler_defs example_defs)
  have shown: "notifications (ui (step (ListSettled first_render (fetch_queries alice) True True)
                        two_fetches_in_flight)) = [note_a]"
    by (simp add: two_fetches_in_flight_def handler_defs example_defs)
  from fetch_shows_unread_of_email_newest_first
         [OF waiting, of known_render "[note_c, note_b, note_a]" True just_mounted True]
       waiting shown
  show ?thesis
    by (simp add: example_defs note_c_def)
qed

section \<open>Deleting all notifications\<close>

text \<open>
  Claim C2 states an all-or-nothing outcome: either every displayed notification is deleted
  and the list is empty after the re-fetch, or, if any delete fails, store and list are left
  unchanged and an alert is shown. The code sends the delete requests independently of each
  other and has no way to undo one. Counterexample: two notifications \<open>b\<close> and \<open>a\<close> are
  displayed, Delete is confirmed, the request for \<open>a\<close> fails and the one for \<open>b\<close> succeeds.
  \<^verbatim>\<open>Promise.all\<close> rejects, the alert is shown and the list still shows both, but \<open>b\<close> is
  gone from the store.
\<close>

theorem partial_delete_changes_store:
  "AwaitDeletes listed_render [''b'', ''a''] \<in> set (pending deletes_in_flight) \<and>
   coll deletes_in_flight = [note_a, note_b] \<and>
   notifications (ui deletes_in_flight) = [note_b, note_a] \<and>
   coll (step (DeletesSettled listed_render [''b'', ''a''] {''a''}) deletes_in_flight) = [note_a] \<and>
   coll (step (DeletesSettled listed_render [''b'', ''a''] {''a''}) deletes_in_flight) \<noteq>
     coll deletes_in_flight \<and>
   notifications (ui (step (DeletesSettled listed_render [''b'', ''a''] {''a''}) deletes_in_flight)) =
     [note_b, note_a] \<and>
   trace (step (DeletesSettled listed_render [''b'', ''a''] {''a''}) deletes_in_flight) =
     trace deletes_in_flight @ [Alert ''Error'' ''Failed to delete notifications'']"
  unfolding deletes_in_flight_eval
  by (simp add: handler_defs example_defs)

text \<open>
  Claim C2, amended. Confirming the dialog sends one delete request for each notification of
  the render that opened it. When all requests are settled the store has lost exactly the
  documents whose request got through. If every request resolved, none of those
  notifications is left in the store, the warning haptic fires and a re-fetch is issued with
  the list still unchanged; when that re-fetch succeeds the list is empty, provided every
  unread document of the user in the store was among the displayed ones. If some request
  failed, the list is unchanged, the alert is shown and no re-fetch is issued; the deletes
  that got through are not undone.
\<close>

theorem deleteAll_outcomes:
  assumes "AwaitDeletes c (map doc_id (notifications c)) \<in> set (pending s)"
  shows
  "trace (deleteAll_onPress c s0) =
     trace s0 @ map (\<lambda>notification. DeleteCall (doc_id notification)) (notifications c) \<and>
   pending (deleteAll_onPress c s0) =
     pending s0 @ [AwaitDeletes c (map doc_id (notifications c))] \<and>
   coll (step (DeletesSettled c (map doc_id (notifications c)) failing) s) =
     filter (\<lambda>d. doc_id d \<notin> doc_id ` set (notifications c) - failing) (coll s) \<and>
   (distinct (map doc_id (notifications c)) \<and> doc_id ` set (notifications c) \<inter> failing = {} \<and>
    doc_id ` set (notifications c) \<subseteq> doc_id ` set (coll s) \<longrightarrow>
      (\<forall>n \<in> set (notifications c).
         doc_id n \<notin> doc_id ` set (coll (step (DeletesSettled c (map doc_id (notifications c))
                                                 failing) s))) \<and>
      trace (step (DeletesSettled c (map doc_id (notifications c)) failing) s) =
        trace s @ [Haptic Warning, ListCall (fetch_queries (userEmail c))] \<and>
      pending (step (DeletesSettled c (map doc_id (notifications c)) failing) s) =
        remove1 (AwaitDeletes c (map doc_id (notifications c))) (pending s)
          @ [AwaitList c (fetch_queries (userEmail c))] \<and>
      ui (step (DeletesSettled c (map doc_id (notifications c)) failing) s) = ui s \<and>
      ((\<forall>d \<in> set (coll s). doc_userEmail d = userEmail c \<and> \<not> doc_isRead d \<longrightarrow>
            doc_id d \<in> doc_id ` set (notifications c)) \<longrightarrow>
         notifications (ui (step (ListSettled c (fetch_queries (userEmail c)) True replay_ok)
                             (step (DeletesSettled c (map doc_id (notifications c)) failing) s)))
           = [])) \<and>
   (\<not> (distinct (map doc_id (notifications c)) \<and> doc_id ` set (notifications c) \<inter> failing = {} \<and>
       doc_id ` set (notifications c) \<subseteq> doc_id ` set (coll s)) \<longrightarrow>
      ui (step (DeletesSettled c (map doc_id (notifications c)) failing) s) = ui s \<and>
      trace (step (DeletesSettled c (map doc_id (notifications c)) failing) s) =
        trace s @ [Alert ''Error'' ''Failed to delete notifications''] \<and>
      pending (step (DeletesSettled c (map doc_id (notifications c)) failing) s) =
        remove1 (AwaitDeletes c (map doc_id (notifications c))) (pending s))"
proof -
  let ?ids = "map doc_id (notifications c)"
  let ?all = "distinct ?ids \<and> doc_id ` set (notifications c) \<inter> failing = {} \<and>
              doc_id ` set (notifications c) \<subseteq> doc_id ` set (coll s)"
  let ?left = "filter (\<lambda>d. doc_id d \<notin> doc_id ` set (notifications c) - failing) (coll s)"
  let ?s0 = "s\<lparr>pending := remove1 (AwaitDeletes c ?ids) (pending s)\<rparr>"
  let ?refetch = "AwaitList c (fetch_queries (userEmail c))"
  define s1 where "s1 = step (DeletesSettled c ?ids failing) s"
  have served: "serve_deletes ?ids failing ?s0 =
                  (if ?all then Inr () else Inl Rejected, ?s0\<lparr>coll := ?left\<rparr>)"
    by (simp add: serve_deletes_eq)
  have settled: "s1 = deleteAll_settled c (if ?all then Inr () else Inl Rejected)
                        (?s0\<lparr>coll := ?left\<rparr>)"
    unfolding s1_def using assms by (simp add: resume_pending served)
  have store: "coll s1 = ?left"
    unfolding settled
    by (simp add: deleteAll_settled_def fetchNotifications_simps proj_simps)
  have resolved: "s1 = fetchNotifications c (userEmail c)
                         (emit [Haptic Warning] (?s0\<lparr>coll := ?left\<rparr>))" if ?all
    unfolding settled if_P [OF that] by (simp add: deleteAll_settled_def)
  have failed: "s1 = emit [Alert ''Error'' ''Failed to delete notifications'']
                       (?s0\<lparr>coll := ?left\<rparr>)" if "\<not> ?all"
    unfolding settled if_not_P [OF that] by (simp add: deleteAll_settled_def)
  have gone: "doc_id n \<notin> doc_id ` set ?left" if ?all and "n \<in> set (notifications c)" for n
  proof -
    from that(2) have "doc_id n \<in> doc_id ` set (notifications c)"
      by (rule imageI)
    moreover from this that(1) have "doc_id n \<notin> failing"
      by blast
    ultimately show ?thesis
      by auto
  qed
  have waiting: "?refetch \<in> set (pending s1)" if ?all
    unfolding resolved [OF that] by (simp add: fetchNotifications_simps proj_simps)
  have empty: "notifications (ui (step (ListSettled c (fetch_queries (userEmail c)) True
                 replay_ok) s1)) = []"
    if a: ?all and shown: "\<forall>d \<in> set (coll s). doc_userEmail d = userEmail c \<and> \<not> doc_isRead d \<longrightarrow>
            doc_id d \<in> doc_id ` set (notifications c)"
  proof -
    have "serve_list (fetch_queries (userEmail c)) True
            (s1\<lparr>pending := remove1 ?refetch (pending s1)\<rparr>) =
            Inr (filter (\<lambda>d. doc_userEmail d = userEmail c)
                   (sort_key (\<lambda>d. - doc_createdAt d) ?left))"
      by (simp add: serve_list_def remote_def listDocuments_fetch store)
    then have "notifications (ui (step (ListSettled c (fetch_queries (userEmail c)) True
                 replay_ok) s1)) =
               filter (\<lambda>doc. \<not> doc_isRead doc)
                 (filter (\<lambda>d. doc_userEmail d = userEmail c)
                    (sort_key (\<lambda>d. - doc_createdAt d) ?left))"
      using waiting [OF a] by (simp add: resume_pending fetch_settled_notifications)
    also have "\<dots> = []"
      using a shown by (auto simp: filter_empty_conv)
    finally show ?thesis .
  qed
  show ?thesis
    unfolding s1_def [symmetric]
  proof (intro conjI impI)
    show "trace (deleteAll_onPress c s0) =
            trace s0 @ map (\<lambda>notification. DeleteCall (doc_id notification)) (notifications c)"
      by (simp add: deleteAll_onPress_def proj_simps)
  next
    show "pending (deleteAll_onPress c s0) = pending s0 @ [AwaitDeletes c ?ids]"
      by (simp add: deleteAll_onPress_def proj_simps)
  next
    show "coll s1 = ?left"
      by (rule store)
  next
    assume a: ?all
    show "\<forall>n \<in> set (notifications c). doc_id n \<notin> doc_id ` set (coll s1)"
      using gone [OF a] store by simp
    show "trace s1 = trace s @ [Haptic Warning, ListCall (fetch_queries (userEmail c))]"
      unfolding resolved [OF a] by (simp add: fetchNotifications_simps proj_simps)
    show "pending s1 = remove1 (AwaitDeletes c ?ids) (pending s) @ [?refetch]"
      unfolding resolved [OF a] by (simp add: fetchNotifications_simps proj_simps)
    show "ui s1 = ui s"
      unfolding resolved [OF a] by (simp add: fetchNotifications_simps proj_simps)
    assume "\<forall>d \<in> set (coll s). doc_userEmail d = userEmail c \<and> \<not> doc_isRead d \<longrightarrow>
            doc_id d \<in> doc_id ` set (notifications c)"
    with a show "notifications (ui (step (ListSettled c (fetch_queries (userEmail c)) True
                    replay_ok) s1)) = []"
      by (rule empty)
  next
    assume a: "\<not> ?all"
    show "ui s1 = ui s"
      unfolding failed [OF a] by (simp add: proj_simps)
    show "trace s1 = trace s @ [Alert ''Error'' ''Failed to delete notifications'']"
      unfolding failed [OF a] by (simp add: proj_simps)
    show "pending s1 = remove1 (AwaitDeletes c ?ids) (pending s)"
      unfolding failed [OF a] by (simp add: proj_simps)
  qed
qed

text \<open>
  The amended C2 at two instances, both with \<open>b\<close> and \<open>a\<close> displayed and stored: with no
  failing request the store and then the list end up empty; with the request for \<open>a\<close>
  failing, \<open>a\<close> stays in the store, the screen state is untouched and the alert is shown.
\<close>

theorem deleteAll_outcomes_witness:
  "AwaitDeletes listed_render (map doc_id (notifications listed_render))
     \<in> set (pending deletes_in_flight) \<and>
   coll (step (DeletesSettled listed_render [''b'', ''a''] {}) deletes_in_flight) = [] \<and>
   trace (step (DeletesSettled listed_render [''b'', ''a''] {}) deletes_in_flight) =
     trace deletes_in_flight @ [Haptic Warning, ListCall (fetch_queries alice)] \<and>
   notifications (ui (step (ListSettled listed_render (fetch_queries alice) True True)
     (step (DeletesSettled listed_render [''b'', ''a''] {}) deletes_in_flight))) = [] \<and>
   coll (step (DeletesSettled listed_render [''b'', ''a''] {''a''}) deletes_in_flight) = [note_a] \<and>
   ui (step (DeletesSettled listed_render [''b'', ''a''] {''a''}) deletes_in_flight) =
     ui deletes_in_flight \<and>
   trace (step (DeletesSettled listed_render [''b'', ''a''] {''a''}) deletes_in_flight) =
     trace deletes_in_flight @ [Alert ''Error'' ''Failed to delete notifications'']"
proof -
  have waiting: "AwaitDeletes listed_render (map doc_id (notifications listed_render))
                   \<in> set (pending deletes_in_flight)"
    unfolding deletes_in_flight_eval by (simp add: example_defs)
  have ids: "map doc_id (notifications listed_render) = [''b'', ''a'']"
    by (simp add: example_defs)
  have facts: "coll deletes_in_flight = [note_a, note_b]" "userEmail listed_render = alice"
    "notifications listed_render = [note_b, note_a]"
    unfolding deletes_in_flight_eval by (simp_all add: example_defs first_render_def)
  from deleteAll_outcomes [OF waiting, where failing = "{}" and replay_ok = True]
       deleteAll_outcomes [OF waiting, where failing = "{''a''}" and replay_ok = True]
       waiting
  show ?thesis
    unfolding ids facts by (simp add: note_a_def note_b_def)
qed

section \<open>The sound and haptic cue of a fetch\<close>

text \<open>
  Claim C3. For every successful fetch the cue is to fire exactly once if and only if the
  new unread count strictly exceeds the previously stored count. The code keeps that count
  in the state cell \<^verbatim>\<open>previousCount\<close> (line 40), compares with it (line 89) and stores
  the new count (line 93); but the handler is created anew by every render (line 82) and
  reads the cell as that render saw it, not as it is stored when the fetch settles. The
  code at a failing input: the fetch started on mount and a fetch started by a
  pull-to-refresh are both in flight, each begun when the count was 0. The first one settles
  with one unread notification, fires the cue and stores the count 1. The second one settles
  with the same single notification: the new count 1 does not exceed the stored count 1,
  yet the success haptic fires again. With the sound loaded before the two fetches settle,
  the sound is replayed and the haptic fires twice for the one increase.
\<close>

theorem overlapping_fetch_cues_without_increase:
  "previousCount (ui first_fetch_done) = 1 \<and>
   AwaitList known_render (fetch_queries alice) \<in> set (pending first_fetch_done) \<and>
   length (notifications (ui (step (ListSettled known_render (fetch_queries alice) True True)
                                first_fetch_done))) = 1 \<and>
   trace (step (ListSettled known_render (fetch_queries alice) True True) first_fetch_done) =
     trace first_fetch_done @ [Haptic Success] \<and>
   previousCount (ui first_fetch_done_with_sound) = 1 \<and>
   AwaitList known_render (fetch_queries alice) \<in> set (pending first_fetch_done_with_sound) \<and>
   length (notifications (ui (step (ListSettled known_render (fetch_queries alice) True True)
                                first_fetch_done_with_sound))) = 1 \<and>
   trace (step (ListSettled known_render (fetch_queries alice) True True)
            first_fetch_done_with_sound) =
     [AddListener, CreateSound, ListCall (fetch_queries alice), ListCall (fetch_queries alice),
      ReplaySound, Haptic Success, ReplaySound, Haptic Success]"
  unfolding first_fetch_done_eval first_fetch_done_with_sound_eval
  by (simp add: handler_defs example_defs)

section \<open>Marking a notification as read\<close>

text \<open>
  Claim C4. For every identifier, \<^verbatim>\<open>markAsRead\<close> sends an update that names the read flag
  only. When the update succeeds the store differs from before only in the read flag of the
  document with that identifier, now true; a re-fetch for the user's email is issued; and
  when that fetch succeeds the document is not among the displayed ones. When the update
  fails, the alert is shown, the store is unchanged and no re-fetch is issued.
\<close>

theorem markAsRead_sets_flag_then_refetches:
  assumes "AwaitUpdate c i (IsRead True) \<in> set (pending s)"
  shows
  "trace (markAsRead c i s0) = trace s0 @ [Haptic Success, UpdateCall i (IsRead True)] \<and>
   pending (markAsRead c i s0) = pending s0 @ [AwaitUpdate c i (IsRead True)] \<and>
   (remote ok (updateDocument (coll s) i (IsRead True)) = Inr ds \<longrightarrow>
      ds = map (\<lambda>d. if doc_id d = i then d\<lparr>doc_isRead := True\<rparr> else d) (coll s) \<and>
      coll (step (UpdateSettled c i (IsRead True) ok) s) = ds \<and>
      ui (step (UpdateSettled c i (IsRead True) ok) s) = ui s \<and>
      trace (step (UpdateSettled c i (IsRead True) ok) s) =
        trace s @ [ListCall (fetch_queries (userEmail c))] \<and>
      pending (step (UpdateSettled c i (IsRead True) ok) s) =
        remove1 (AwaitUpdate c i (IsRead True)) (pending s)
          @ [AwaitList c (fetch_queries (userEmail c))] \<and>
      i \<notin> doc_id ` set (notifications
             (ui (step (ListSettled c (fetch_queries (userEmail c)) True replay_ok)
                    (step (UpdateSettled c i (IsRead True) ok) s))))) \<and>
   (remote ok (updateDocument (coll s) i (IsRead True)) = Inl e \<longrightarrow>
      trace (step (UpdateSettled c i (IsRead True) ok) s) =
        trace s @ [Alert ''Error'' ''Failed to mark as read''] \<and>
      coll (step (UpdateSettled c i (IsRead True) ok) s) = coll s \<and>
      ui (step (UpdateSettled c i (IsRead True) ok) s) = ui s \<and>
      pending (step (UpdateSettled c i (IsRead True) ok) s) =
        remove1 (AwaitUpdate c i (IsRead True)) (pending s))"
proof -
  let ?s0 = "s\<lparr>pending := remove1 (AwaitUpdate c i (IsRead True)) (pending s)\<rparr>"
  let ?refetch = "AwaitList c (fetch_queries (userEmail c))"
  define s1 where "s1 = step (UpdateSettled c i (IsRead True) ok) s"
  have settled: "s1 = (case serve_update i (IsRead True) ok ?s0 of
                         (res, s') \<Rightarrow> markAsRead_settled c res s')"
    unfolding s1_def using assms by (simp add: resume_pending)
  have resolved: "s1 = fetchNotifications c (userEmail c) (?s0\<lparr>coll := ds\<rparr>)"
    if "remote ok (updateDocument (coll s) i (IsRead True)) = Inr ds"
    unfolding settled using that by (simp add: serve_update_def markAsRead_settled_def)
  have failed: "s1 = emit [Alert ''Error'' ''Failed to mark as read''] ?s0"
    if "remote ok (updateDocument (coll s) i (IsRead True)) = Inl e"
    unfolding settled using that by (simp add: serve_update_def markAsRead_settled_def)
  have absent: "i \<notin> doc_id ` set (notifications
             (ui (step (ListSettled c (fetch_queries (userEmail c)) True replay_ok) s1)))"
    if upd: "remote ok (updateDocument (coll s) i (IsRead True)) = Inr ds"
  proof -
    from upd have ds: "ds = map (\<lambda>d. if doc_id d = i then d\<lparr>doc_isRead := True\<rparr> else d) (coll s)"
      by (auto simp: remote_def updateDocument_def split: if_splits)
    have read: "doc_isRead d" if "d \<in> set ds" and "doc_id d = i" for d
      using that unfolding ds by (rule updated_is_read)
    have waiting: "?refetch \<in> set (pending s1)" and store: "coll s1 = ds"
      unfolding resolved [OF upd] by (simp_all add: fetchNotifications_simps)
    have "serve_list (fetch_queries (userEmail c)) True
            (s1\<lparr>pending := remove1 ?refetch (pending s1)\<rparr>) =
            Inr (filter (\<lambda>d. doc_userEmail d = userEmail c)
                   (sort_key (\<lambda>d. - doc_createdAt d) ds))"
      by (simp add: serve_list_def remote_def listDocuments_fetch store)
    then have "notifications (ui (step (ListSettled c (fetch_queries (userEmail c)) True
                 replay_ok) s1)) =
               filter (\<lambda>doc. \<not> doc_isRead doc)
                 (filter (\<lambda>d. doc_userEmail d = userEmail c)
                    (sort_key (\<lambda>d. - doc_createdAt d) ds))"
      using waiting by (simp add: resume_pending fetch_settled_notifications)
    with read show ?thesis
      by auto
  qed
  show ?thesis
    unfolding s1_def [symmetric]
  proof (intro conjI impI)
    show "trace (markAsRead c i s0) = trace s0 @ [Haptic Success, UpdateCall i (IsRead True)]"
      by (simp add: markAsRead_def proj_simps)
  next
    show "pending (markAsRead c i s0) = pending s0 @ [AwaitUpdate c i (IsRead True)]"
      by (simp add: markAsRead_def proj_simps)
  next
    assume upd: "remote ok (updateDocument (coll s) i (IsRead True)) = Inr ds"
    then show "ds = map (\<lambda>d. if doc_id d = i then d\<lparr>doc_isRead := True\<rparr> else d) (coll s)"
      by (auto simp: remote_def updateDocument_def split: if_splits)
    show "coll s1 = ds" "ui s1 = ui s"
      "trace s1 = trace s @ [ListCall (fetch_queries (userEmail c))]"
      "pending s1 = remove1 (AwaitUpdate c i (IsRead True)) (pending s) @ [?refetch]"
      unfolding resolved [OF upd] by (simp_all add: fetchNotifications_simps)
    show "i \<notin> doc_id ` set (notifications
             (ui (step (ListSettled c (fetch_queries (userEmail c)) True replay_ok) s1)))"
      using upd by (rule absent)
  next
    assume "remote ok (updateDocument (coll s) i (IsRead True)) = Inl e"
    then have "s1 = emit [Alert ''Error'' ''Failed to mark as read''] ?s0"
      by (rule failed)
    then show "trace s1 = trace s @ [Alert ''Error'' ''Failed to mark as read'']"
      "coll s1 = coll s" "ui s1 = ui s"
      "pending s1 = remove1 (AwaitUpdate c i (IsRead True)) (pending s)"
      by (simp_all add: proj_simps)
  qed
qed

text \<open>
  C4 at two instances: \<open>a\<close> is dismissed while \<open>b\<close> and \<open>a\<close> are displayed; the update gets
  through, or it is rejected.
\<close>

theorem markAsRead_sets_flag_then_refetches_witness:
  "AwaitUpdate listed_render ''a'' (IsRead True) \<in> set (pending update_in_flight) \<and>
   remote True (updateDocument (coll update_in_flight) ''a'' (IsRead True)) =
     Inr [note_a\<lparr>doc_isRead := True\<rparr>, note_b] \<and>
   coll (step (UpdateSettled listed_render ''a'' (IsRead True) True) update_in_flight) =
     [note_a\<lparr>doc_isRead := True\<rparr>, note_b] \<and>
   trace (step (UpdateSettled listed_render ''a'' (IsRead True) True) update_in_flight) =
     trace update_in_flight @ [ListCall (fetch_queries alice)] \<and>
   ''a'' \<notin> doc_id ` set (notifications
      (ui (step (ListSettled listed_render (fetch_queries alice) True True)
             (step (UpdateSettled listed_render ''a'' (IsRead True) True) update_in_flight)))) \<and>
   remote False (updateDocument (coll update_in_flight) ''a'' (IsRead True)) = Inl Rejected \<and>
   trace (step (UpdateSettled listed_render ''a'' (IsRead True) False) update_in_flight) =
     trace update_in_flight @ [Alert ''Error'' ''Failed to mark as read''] \<and>
   coll (step (UpdateSettled listed_render ''a'' (IsRead True) False) update_in_flight) =
     coll update_in_flight"
proof -
  have waiting: "AwaitUpdate listed_render ''a'' (IsRead True) \<in> set (pending update_in_flight)"
    unfolding update_in_flight_eval by simp
  have updated: "remote True (updateDocument (coll update_in_flight) ''a'' (IsRead True)) =
     Inr [note_a\<lparr>doc_isRead := True\<rparr>, note_b]"
    unfolding update_in_flight_eval by (simp add: handler_defs example_defs)
  have rejected: "remote False (updateDocument (coll update_in_flight) ''a'' (IsRead True)) =
     Inl Rejected"
    by (simp add: remote_def)
  have user: "userEmail listed_render = alice"
    by (simp add: example_defs first_render_def)
  from markAsRead_sets_flag_then_refetches
         [OF waiting, where ok = True and ds = "[note_a\<lparr>doc_isRead := True\<rparr>, note_b]"
            and e = Rejected and replay_ok = True]
       markAsRead_sets_flag_then_refetches
         [OF waiting, where ok = False and ds = "[note_a\<lparr>doc_isRead := True\<rparr>, note_b]"
            and e = Rejected and replay_ok = True]
       waiting updated rejected
  show ?thesis
    unfolding user by simp
qed

section \<open>Failure of a fetch\<close>

text \<open>
  Claim C5. Every invocation of \<^verbatim>\<open>fetchNotifications\<close> sends the list request and leaves
  its continuation waiting. Whenever that continuation is resumed, the refresh flag is
  false afterwards, whether the request succeeded or failed; and if the request failed
  (as it does when it is rejected), the alert is shown and the displayed list is left as it
  was. In particular this holds when the request of an invocation settles right away.
\<close>

theorem fetch_failure_alerts_and_clears_refreshing:
  assumes "AwaitList c (fetch_queries email) \<in> set (pending s)"
  shows
  "trace (fetchNotifications c email s0) = trace s0 @ [ListCall (fetch_queries email)] \<and>
   pending (fetchNotifications c email s0) = pending s0 @ [AwaitList c (fetch_queries email)] \<and>
   refreshing (ui (step (ListSettled c (fetch_queries email) ok replay_ok) s)) = False \<and>
   (serve_list (fetch_queries email) ok s = Inl e \<longrightarrow>
      trace (step (ListSettled c (fetch_queries email) ok replay_ok) s) =
        trace s @ [Alert ''Error'' ''Failed to fetch notifications''] \<and>
      notifications (ui (step (ListSettled c (fetch_queries email) ok replay_ok) s)) =
        notifications (ui s)) \<and>
   serve_list (fetch_queries email) False s = Inl Rejected \<and>
   refreshing (ui (step (ListSettled c (fetch_queries email) ok replay_ok)
                     (fetchNotifications c email s0))) = False \<and>
   (serve_list (fetch_queries email) ok s0 = Inl e \<longrightarrow>
      trace (step (ListSettled c (fetch_queries email) ok replay_ok)
               (fetchNotifications c email s0)) =
        trace s0 @ [ListCall (fetch_queries email),
                    Alert ''Error'' ''Failed to fetch notifications''])"
proof -
  let ?waiting = "AwaitList c (fetch_queries email)"
  let ?settle = "step (ListSettled c (fetch_queries email) ok replay_ok)"
  have resumed: "?settle t =
      fetchNotifications_settled c (serve_list (fetch_queries email) ok t) replay_ok
        (t\<lparr>pending := remove1 ?waiting (pending t)\<rparr>)"
    if "?waiting \<in> set (pending t)" for t
    using that by (simp add: resume_pending serve_list_def)
  have cleared: "refreshing (ui (?settle t)) = False" if "?waiting \<in> set (pending t)" for t
    unfolding resumed [OF that] by (simp add: fetchNotifications_settled_def proj_simps)
  have alerted: "trace (?settle t) = trace t @ [Alert ''Error'' ''Failed to fetch notifications'']"
    "notifications (ui (?settle t)) = notifications (ui t)"
    if "?waiting \<in> set (pending t)" and "serve_list (fetch_queries email) ok t = Inl e" for t
    unfolding resumed [OF that(1)] that(2)
    by (simp_all add: fetchNotifications_settled_def proj_simps)
  have invoked: "?waiting \<in> set (pending (fetchNotifications c email s0))"
    by (simp add: fetchNotifications_simps)
  have same: "serve_list (fetch_queries email) ok (fetchNotifications c email s0) =
                serve_list (fetch_queries email) ok s0"
    by (simp add: serve_list_def fetchNotifications_simps)
  show ?thesis
  proof (intro conjI impI)
    show "trace (fetchNotifications c email s0) = trace s0 @ [ListCall (fetch_queries email)]"
      "pending (fetchNotifications c email s0) = pending s0 @ [?waiting]"
      by (simp_all add: fetchNotifications_simps)
  next
    show "refreshing (ui (?settle s)) = False"
      using assms by (rule cleared)
  next
    assume "serve_list (fetch_queries email) ok s = Inl e"
    with assms show "trace (?settle s) = trace s @ [Alert ''Error'' ''Failed to fetch notifications'']"
      "notifications (ui (?settle s)) = notifications (ui s)"
      by (rule alerted)+
  next
    show "serve_list (fetch_queries email) False s = Inl Rejected"
      by (simp add: serve_list_def remote_def)
  next
    show "refreshing (ui (?settle (fetchNotifications c email s0))) = False"
      using invoked by (rule cleared)
  next
    assume "serve_list (fetch_queries email) ok s0 = Inl e"
    then have "serve_list (fetch_queries email) ok (fetchNotifications c email s0) = Inl e"
      by (simp only: same)
    with invoked have "trace (?settle (fetchNotifications c email s0)) =
        trace (fetchNotifications c email s0) @ [Alert ''Error'' ''Failed to fetch notifications'']"
      by (rule alerted(1))
    then show "trace (?settle (fetchNotifications c email s0)) =
        trace s0 @ [ListCall (fetch_queries email),
                    Alert ''Error'' ''Failed to fetch notifications'']"
      by (simp add: fetchNotifications_simps)
  qed
qed

text \<open>
  C5 at an instance: a pull-to-refresh has set the flag and started a fetch. Its list
  request is rejected: the flag is cleared and the alert is shown. Or it succeeds: the flag
  is cleared.
\<close>

theorem fetch_failure_alerts_and_clears_refreshing_witness:
  "AwaitList listed_render (fetch_queries alice) \<in> set (pending (step Refresh listed)) \<and>
   refreshing (ui (step Refresh listed)) \<and>
   serve_list (fetch_queries alice) False (step Refresh listed) = Inl Rejected \<and>
   refreshing (ui (step (ListSettled listed_render (fetch_queries alice) False True)
                     (step Refresh listed))) = False \<and>
   trace (step (ListSettled listed_render (fetch_queries alice) False True) (step Refresh listed)) =
     trace (step Refresh listed) @ [Alert ''Error'' ''Failed to fetch notifications''] \<and>
   refreshing (ui (step (ListSettled listed_render (fetch_queries alice) True True)
                     (step Refresh listed))) = False"
proof -
  define pulled where "pulled = step Refresh listed"
  have waiting: "AwaitList listed_render (fetch_queries alice) \<in> set (pending pulled)"
    and flag: "refreshing (ui pulled)"
    unfolding pulled_def listed_eval by (simp_all add: handler_defs example_defs)
  from fetch_failure_alerts_and_clears_refreshing
         [OF waiting, where ok = False and e = Rejected and replay_ok = True]
       fetch_failure_alerts_and_clears_refreshing
         [OF waiting, where ok = True and e = Rejected and replay_ok = True]
       waiting flag
  show ?thesis
    unfolding pulled_def [symmetric] by simp
qed

section \<open>Push registration without permission\<close>

text \<open>
  Claim C6. When the device is not a physical device, or when it is one and the final
  permission status is not granted, \<^verbatim>\<open>registerForPushNotificationsAsync\<close> returns normally
  with a null token and shows an alert; the screen then only records that alert and is
  otherwise left as it was.
\<close>

theorem register_denied_returns_null_with_alert:
  "(\<not> isDevice d \<longrightarrow>
      registerForPushNotificationsAsync d =
        (Inr None, [Alert ''Device error'' ''Must use physical device for push notifications.'']) \<and>
      register_settled d s =
        emit [Alert ''Device error'' ''Must use physical device for push notifications.''] s) \<and>
   (isDevice d \<and> finalStatus d = Inr status \<and> status \<noteq> Granted \<longrightarrow>
      registerForPushNotificationsAsync d =
        (Inr None, [Alert ''Permission required'' ''Enable notifications in settings.'']) \<and>
      register_settled d s =
        emit [Alert ''Permission required'' ''Enable notifications in settings.''] s)"
  by (simp add: registerForPushNotificationsAsync_def register_settled_def)

text \<open>C6 at two instances: an emulator, and a phone whose user refuses the permission.\<close>

theorem register_denied_returns_null_with_alert_witness:
  "\<not> isDevice emulator \<and>
   registerForPushNotificationsAsync emulator =
     (Inr None, [Alert ''Device error'' ''Must use physical device for push notifications.'']) \<and>
   isDevice refusing_phone \<and> finalStatus refusing_phone = Inr Denied \<and>
   registerForPushNotificationsAsync refusing_phone =
     (Inr None, [Alert ''Permission required'' ''Enable notifications in settings.''])"
proof -
  have a: "\<not> isDevice emulator"
    by (simp add: emulator_def)
  have b: "isDevice refusing_phone \<and> finalStatus refusing_phone = Inr Denied \<and> Denied \<noteq> Granted"
    by (simp add: refusing_phone_def finalStatus_def)
  from register_denied_returns_null_with_alert [of emulator just_mounted Denied]
       register_denied_returns_null_with_alert [of refusing_phone just_mounted Denied] a b
  show ?thesis by simp
qed

section \<open>Releasing the sound and the listener\<close>

text \<open>
  Claim C7 says that unmounting releases the loaded sound exactly once and removes the push
  listener exactly once, also when the component is unmounted before the sound has finished
  loading. The cleanup of lines 54-58 unloads only what \<^verbatim>\<open>soundRef\<close> holds at that moment.
  In the run mount, unmount, sound loaded, the listener is removed once, but the sound is
  created after the cleanup has run and is never unloaded. In the run mount, sound loaded,
  unmount, both are released once.
\<close>

theorem unmount_before_sound_loaded_never_unloads:
  "trace (run [Mount, Unmount, SoundSettled True] (init [])) =
     [AddListener, RemoveListener, CreateSound] \<and>
   soundRef (run [Mount, Unmount, SoundSettled True] (init [])) \<and>
   trace (run [Mount, SoundSettled True, Unmount] (init [])) =
     [AddListener, CreateSound, UnloadSound, RemoveListener]"
  by (simp add: handler_defs)

section \<open>Pull to refresh\<close>

text \<open>
  Claim C8. For every pull-to-refresh gesture the refresh flag is set, and a list request
  for the stored email is sent, with its continuation left waiting, if and only if that
  email is not empty.
\<close>

theorem refresh_sets_flag_and_fetches_iff_email_known:
  assumes "phase s = Mounted"
  shows "refreshing (ui (step Refresh s)) \<and>
         trace (step Refresh s) =
           trace s @ (if userEmail (ui s) \<noteq> []
                      then [ListCall (fetch_queries (userEmail (ui s)))] else []) \<and>
         pending (step Refresh s) =
           pending s @ (if userEmail (ui s) \<noteq> []
                        then [AwaitList (ui s) (fetch_queries (userEmail (ui s)))] else [])"
  using assms by (simp add: onRefresh_def Let_def fetchNotifications_simps proj_simps)

text \<open>C8 at two instances: with the email known, and right after mounting.\<close>

theorem refresh_sets_flag_and_fetches_iff_email_known_witness:
  "phase listed = Mounted \<and> userEmail (ui listed) = alice \<and>
   refreshing (ui (step Refresh listed)) \<and>
   trace (step Refresh listed) = trace listed @ [ListCall (fetch_queries alice)] \<and>
   pending (step Refresh listed) = pending listed @ [AwaitList listed_render (fetch_queries alice)] \<and>
   phase just_mounted = Mounted \<and> userEmail (ui just_mounted) = [] \<and>
   refreshing (ui (step Refresh just_mounted)) \<and>
   trace (step Refresh just_mounted) = trace just_mounted \<and>
   pending (step Refresh just_mounted) = pending just_mounted"
proof -
  have a: "phase listed = Mounted" "ui listed = listed_render"
    by (simp_all add: listed_eval)
  have b: "phase just_mounted = Mounted" "ui just_mounted = first_render"
    by (simp_all add: just_mounted_eval)
  from refresh_sets_flag_and_fetches_iff_email_known [OF a(1)]
       refresh_sets_flag_and_fetches_iff_email_known [OF b(1)] a b
  show ?thesis
    by (simp add: listed_render_def known_render_def first_render_def alice_def)
qed

section \<open>The haptic of mark-as-read\<close>

text \<open>
  Claim C9. For every invocation of \<^verbatim>\<open>markAsRead\<close> the success haptic comes before the
  update request; so when the update then fails, the haptic has fired and the alert follows.
\<close>

theorem markAsRead_haptic_precedes_update:
  "trace (markAsRead c i s) = trace s @ [Haptic Success, UpdateCall i (IsRead True)] \<and>
   trace (markAsRead_settled c (Inl e) (markAsRead c i s)) =
     trace s @ [Haptic Success, UpdateCall i (IsRead True),
                Alert ''Error'' ''Failed to mark as read'']"
  by (simp add: markAsRead_def markAsRead_settled_def proj_simps)

text \<open>
  C9 at an instance: \<open>a\<close> is dismissed and its update is rejected; the run of the two events
  leaves the haptic, the request and the alert, in this order.
\<close>

theorem markAsRead_haptic_precedes_update_witness:
  "trace (markAsRead listed_render ''a'' listed) =
     trace listed @ [Haptic Success, UpdateCall ''a'' (IsRead True)] \<and>
   trace (markAsRead_settled listed_render (Inl Rejected) (markAsRead listed_render ''a'' listed)) =
     trace listed @ [Haptic Success, UpdateCall ''a'' (IsRead True),
                     Alert ''Error'' ''Failed to mark as read''] \<and>
   trace (run [Dismiss ''a'', UpdateSettled listed_render ''a'' (IsRead True) False] listed) =
     trace listed @ [Haptic Success, UpdateCall ''a'' (IsRead True),
                     Alert ''Error'' ''Failed to mark as read'']"
proof -
  have events: "trace (run [Dismiss ''a'', UpdateSettled listed_render ''a'' (IsRead True) False]
                         listed) =
     trace listed @ [Haptic Success, UpdateCall ''a'' (IsRead True),
                     Alert ''Error'' ''Failed to mark as read'']"
    unfolding listed_eval by (simp add: handler_defs example_defs)
  from markAsRead_haptic_precedes_update [of listed_render "''a''" listed Rejected] events
  show ?thesis by simp
qed

section \<open>Pull to refresh before the email is known\<close>

text \<open>
  Claim C10. A pull-to-refresh made while the stored email is empty sets the refresh flag,
  sends no request and leaves no continuation waiting; and the flag stays set through
  every later sequence of events in which no fetch runs to its end.
\<close>

theorem refresh_without_email_leaves_flag_set:
  assumes "phase s = Mounted" and "userEmail (ui s) = []"
  shows "refreshing (ui (step Refresh s)) \<and>
         trace (step Refresh s) = trace s \<and>
         pending (step Refresh s) = pending s \<and>
         (list_all (\<lambda>e. \<not> completes_fetch e) es \<longrightarrow>
            refreshing (ui (run es (step Refresh s))))"
proof -
  have now: "refreshing (ui (step Refresh s))"
    using assms by (simp add: onRefresh_def Let_def proj_simps)
  have "trace (step Refresh s) = trace s" "pending (step Refresh s) = pending s"
    using assms by (simp_all add: onRefresh_def Let_def proj_simps)
  with now show ?thesis
    by (simp add: refreshing_kept_by_run)
qed

text \<open>
  C10 at an instance: right after mounting the email is still empty; the flag set by a pull
  survives a push notification, the end of the sound load, another pull and the arrival of
  the user, and is cleared when the first fetch settles.
\<close>

theorem refresh_without_email_leaves_flag_set_witness:
  "phase just_mounted = Mounted \<and> userEmail (ui just_mounted) = [] \<and>
   refreshing (ui (step Refresh just_mounted)) \<and>
   trace (step Refresh just_mounted) = trace just_mounted \<and>
   refreshing (ui (run [PushReceived True, SoundSettled True, Refresh,
                        UserSettled first_render (Inr alice)]
                     (step Refresh just_mounted))) \<and>
   \<not> refreshing (ui (run [UserSettled first_render (Inr alice),
                          ListSettled first_render (fetch_queries alice) True True]
                     (step Refresh just_mounted)))"
proof -
  have a: "phase just_mounted = Mounted" "userEmail (ui just_mounted) = []"
    by (simp_all add: just_mounted_eval first_render_def)
  have cleared: "\<not> refreshing (ui (run [UserSettled first_render (Inr alice),
                    ListSettled first_render (fetch_queries alice) True True]
                    (step Refresh just_mounted)))"
    unfolding just_mounted_eval by (simp add: handler_defs example_defs)
  from refresh_without_email_leaves_flag_set [OF a,
         of "[PushReceived True, SoundSettled True, Refresh, UserSettled first_render (Inr alice)]"]
       a cleared
  show ?thesis by simp
qed

end
